theory Spec2Isabelle
  imports Complex_Main
begin

section \<open>Strings and JSON values of the host language\<close>

text \<open>
  The component \<^verbatim>\<open>src/components/record-answer.tsx\<close> is TypeScript. Its strings
  are sequences of UTF-16 code units; a code unit is modelled by its number, so that
  every text the generative-AI service can return is a value of \<open>js_string\<close>.
  Literals of the source are written \<open>str ''...''\<close>.
\<close>

type_synonym code_unit = nat
type_synonym js_string = "code_unit list"

abbreviation str :: "string \<Rightarrow> js_string" where
  "str s \<equiv> map of_char s"

text \<open>
  The values \<^verbatim>\<open>JSON.parse\<close> produces. A number is kept as the exact rational its
  literal denotes (the rounding to an IEEE double is not modelled); an object is the
  list of its own properties.
\<close>

datatype json =
    JNull
  | JBool bool
  | JNum rat
  | JStr js_string
  | JArr "json list"
  | JObj "(js_string \<times> json) list"

subsection \<open>The built-in \<^verbatim>\<open>JSON.parse\<close>\<close>

text \<open>
  \<^verbatim>\<open>JSON.parse\<close> is a built-in of the language, not code of the repository. It is
  modelled after the JSON grammar (ECMA-404) it implements: a lexer from code units to
  tokens, and a pushdown recogniser over the tokens that builds the value. \<open>None\<close>
  stands for the \<^verbatim>\<open>SyntaxError\<close> the built-in throws.
\<close>

datatype token =
    LBrace | RBrace | LBracket | RBracket | Colon | Comma
  | TStr js_string | TNum rat | TTrue | TFalse | TNull

definition is_json_ws :: "code_unit \<Rightarrow> bool" where
  "is_json_ws c = (c = 0x20 \<or> c = 0x09 \<or> c = 0x0A \<or> c = 0x0D)"

definition is_digit :: "code_unit \<Rightarrow> bool" where
  "is_digit c = (0x30 \<le> c \<and> c \<le> 0x39)"

definition hex_val :: "code_unit \<Rightarrow> nat option" where
  "hex_val c =
     (if 0x30 \<le> c \<and> c \<le> 0x39 then Some (c - 0x30)
      else if 0x41 \<le> c \<and> c \<le> 0x46 then Some (c - 0x37)
      else if 0x61 \<le> c \<and> c \<le> 0x66 then Some (c - 0x57)
      else None)"

fun hex4 :: "js_string \<Rightarrow> code_unit option" where
  "hex4 [a, b, c, d] =
     (case (hex_val a, hex_val b, hex_val c, hex_val d) of
        (Some x, Some y, Some z, Some w) \<Rightarrow> Some (((x * 16 + y) * 16 + z) * 16 + w)
      | _ \<Rightarrow> None)"
| "hex4 _ = None"

text \<open>The single-character escapes of a JSON string: \<^verbatim>\<open>\" \\ \/ \b \f \n \r \t\<close>.\<close>

definition escape :: "code_unit \<Rightarrow> code_unit option" where
  "escape e =
     (if e = 0x22 then Some 0x22
      else if e = 0x5C then Some 0x5C
      else if e = 0x2F then Some 0x2F
      else if e = 0x62 then Some 0x08
      else if e = 0x66 then Some 0x0C
      else if e = 0x6E then Some 0x0A
      else if e = 0x72 then Some 0x0D
      else if e = 0x74 then Some 0x09
      else None)"

text \<open>
  \<open>string_body cs\<close> reads a string after its opening quote: the characters up to
  the closing quote, unescaped, and the text after it. A raw control character, a bad
  escape or a missing closing quote is a syntax error.
\<close>

fun string_body :: "js_string \<Rightarrow> (js_string \<times> js_string) option" where
  "string_body [] = None"
| "string_body (c # cs) =
     (if c = 0x22 then Some ([], cs)
      else if c = 0x5C then
        (case cs of
           [] \<Rightarrow> None
         | e # es \<Rightarrow>
             if e = 0x75 then
               (case hex4 (take 4 es) of
                  None \<Rightarrow> None
                | Some u \<Rightarrow> map_option (\<lambda>(s, r). (u # s, r)) (string_body (drop 4 es)))
             else
               (case escape e of
                  None \<Rightarrow> None
                | Some x \<Rightarrow> map_option (\<lambda>(s, r). (x # s, r)) (string_body es)))
      else if c < 0x20 then None
      else map_option (\<lambda>(s, r). (c # s, r)) (string_body cs))"

definition digits_val :: "js_string \<Rightarrow> nat" where
  "digits_val ds = foldl (\<lambda>n d. 10 * n + (d - 0x30)) 0 ds"

text \<open>
  The parts of a number literal
  \<^verbatim>\<open>-? (0 | [1-9][0-9]*) (. [0-9]+)? ([eE] [+-]? [0-9]+)?\<close>,
  each returning what it read and the rest of the text.
\<close>

definition sign_part :: "js_string \<Rightarrow> bool \<times> js_string" where
  "sign_part s = (case s of c # r \<Rightarrow> if c = 0x2D then (True, r) else (False, s) | [] \<Rightarrow> (False, s))"

definition int_part :: "js_string \<Rightarrow> (js_string \<times> js_string) option" where
  "int_part s =
     (case s of
        [] \<Rightarrow> None
      | d # r \<Rightarrow>
          if d = 0x30 then Some ([d], r)
          else if is_digit d then Some (takeWhile is_digit s, dropWhile is_digit s)
          else None)"

definition frac_part :: "js_string \<Rightarrow> (js_string \<times> js_string) option" where
  "frac_part s =
     (case s of
        [] \<Rightarrow> Some ([], s)
      | c # r \<Rightarrow>
          if c = 0x2E then
            (if takeWhile is_digit r = [] then None
             else Some (takeWhile is_digit r, dropWhile is_digit r))
          else Some ([], s))"

definition exp_sign :: "js_string \<Rightarrow> bool \<times> js_string" where
  "exp_sign s =
     (case s of
        [] \<Rightarrow> (False, s)
      | c # r \<Rightarrow> if c = 0x2D then (True, r) else if c = 0x2B then (False, r) else (False, s))"

definition exp_part :: "js_string \<Rightarrow> (int \<times> js_string) option" where
  "exp_part s =
     (case s of
        [] \<Rightarrow> Some (0, s)
      | c # r \<Rightarrow>
          if c = 0x65 \<or> c = 0x45 then
            (case exp_sign r of
               (neg, r1) \<Rightarrow>
                 if takeWhile is_digit r1 = [] then None
                 else Some ((if neg then - int (digits_val (takeWhile is_digit r1))
                             else int (digits_val (takeWhile is_digit r1))),
                            dropWhile is_digit r1))
          else Some (0, s))"

definition number_value :: "bool \<Rightarrow> js_string \<Rightarrow> js_string \<Rightarrow> int \<Rightarrow> rat" where
  "number_value neg ip fp ex =
     (if neg then - 1 else 1)
       * (of_nat (digits_val ip) + of_nat (digits_val fp) / 10 ^ length fp)
       * (if 0 \<le> ex then 10 ^ nat ex else 1 / 10 ^ nat (- ex))"

definition number :: "js_string \<Rightarrow> (rat \<times> js_string) option" where
  "number s =
     (case sign_part s of
        (neg, s1) \<Rightarrow>
          (case int_part s1 of
             None \<Rightarrow> None
           | Some (ip, s2) \<Rightarrow>
               (case frac_part s2 of
                  None \<Rightarrow> None
                | Some (fp, s3) \<Rightarrow>
                    (case exp_part s3 of
                       None \<Rightarrow> None
                     | Some (ex, s4) \<Rightarrow> Some (number_value neg ip fp ex, s4)))))"

lemma string_body_shorter: "string_body cs = Some (s, r) \<Longrightarrow> length r \<le> length cs"
proof (induction cs arbitrary: s r rule: string_body.induct)
  case 1
  then show ?case by simp
next
  case (2 c cs)
  show ?case
  proof (cases "c = 0x22")
    case True
    with "2.prems" show ?thesis by simp
  next
    case quote: False
    show ?thesis
    proof (cases "c = 0x5C")
      case True
      with quote "2.prems" obtain e es where cs: "cs = e # es"
        by (cases cs) auto
      show ?thesis
      proof (cases "e = 0x75")
        case u: True
        with True quote cs "2.prems" obtain v s' where
          "hex4 (take 4 es) = Some v" and "string_body (drop 4 es) = Some (s', r)"
          by (auto split: option.splits)
        with "2.IH"(1) [OF quote True cs u] have "length r \<le> length (drop 4 es)"
          by blast
        with cs show ?thesis by simp
      next
        case nu: False
        with True quote cs "2.prems" obtain x s' where
          "escape e = Some x" and "string_body es = Some (s', r)"
          by (auto split: option.splits)
        with "2.IH"(2) [OF quote True cs nu] have "length r \<le> length es"
          by blast
        with cs show ?thesis by simp
      qed
    next
      case False
      with quote "2.prems" obtain s' where "\<not> c < 0x20" and "string_body cs = Some (s', r)"
        by (auto split: if_splits)
      with "2.IH"(3) [OF quote False] have "length r \<le> length cs"
        by blast
      then show ?thesis by simp
    qed
  qed
qed

lemma int_part_shorter: "int_part s = Some (ip, r) \<Longrightarrow> length r < length s"
proof (cases s)
  case Nil
  assume "int_part s = Some (ip, r)"
  with Nil show ?thesis by (simp add: int_part_def)
next
  case (Cons d t)
  assume a: "int_part s = Some (ip, r)"
  show ?thesis
  proof (cases "d = 0x30")
    case True
    with a Cons show ?thesis by (simp add: int_part_def)
  next
    case False
    with a Cons have d: "is_digit d" and r: "r = dropWhile is_digit t"
      by (auto simp: int_part_def split: if_splits)
    have "length (dropWhile is_digit t) \<le> length t"
      by (rule length_dropWhile_le)
    with r Cons show ?thesis by simp
  qed
qed

lemma frac_part_shorter: "frac_part s = Some (fp, r) \<Longrightarrow> length r \<le> length s"
  using length_dropWhile_le [of is_digit "tl s"]
  by (cases s) (auto simp: frac_part_def split: if_splits)

lemma exp_sign_shorter: "exp_sign s = (neg, r) \<Longrightarrow> length r \<le> length s"
  by (cases s) (auto simp: exp_sign_def split: if_splits)

lemma exp_part_shorter: "exp_part s = Some (ex, r) \<Longrightarrow> length r \<le> length s"
proof (cases s)
  case Nil
  assume "exp_part s = Some (ex, r)"
  with Nil show ?thesis by (simp add: exp_part_def)
next
  case (Cons c t)
  assume a: "exp_part s = Some (ex, r)"
  show ?thesis
  proof (cases "c = 0x65 \<or> c = 0x45")
    case True
    obtain neg r1 where es: "exp_sign t = (neg, r1)"
      by (cases "exp_sign t")
    with a Cons True have "r = dropWhile is_digit r1"
      by (auto simp: exp_part_def split: if_splits)
    moreover have "length (dropWhile is_digit r1) \<le> length r1"
      by (rule length_dropWhile_le)
    moreover from es have "length r1 \<le> length t"
      by (rule exp_sign_shorter)
    ultimately show ?thesis using Cons by simp
  next
    case False
    with a Cons show ?thesis by (auto simp: exp_part_def)
  qed
qed

lemma sign_part_shorter: "sign_part s = (neg, r) \<Longrightarrow> length r \<le> length s"
  by (cases s) (auto simp: sign_part_def split: if_splits)

lemma number_shorter:
  assumes "number s = Some (n, r)"
  shows "length r < length s"
proof -
  obtain neg s1 where a: "sign_part s = (neg, s1)"
    by (cases "sign_part s")
  with assms obtain ip s2 where b: "int_part s1 = Some (ip, s2)"
    by (auto simp: number_def split: option.splits)
  with a assms obtain fp s3 where c: "frac_part s2 = Some (fp, s3)"
    by (auto simp: number_def split: option.splits)
  with a b assms obtain ex where d: "exp_part s3 = Some (ex, r)"
    by (auto simp: number_def split: option.splits)
  from a have "length s1 \<le> length s" by (rule sign_part_shorter)
  moreover from b have "length s2 < length s1" by (rule int_part_shorter)
  moreover from c have "length s3 \<le> length s2" by (rule frac_part_shorter)
  moreover from d have "length r \<le> length s3" by (rule exp_part_shorter)
  ultimately show ?thesis by simp
qed

text \<open>
  The lexer. White space between tokens is space, tab, line feed and carriage return.
  A character that starts no token is a syntax error.
\<close>

function lex :: "js_string \<Rightarrow> token list option" where
  "lex [] = Some []"
| "lex (c # cs) =
     (if is_json_ws c then lex cs
      else if c = 0x7B then map_option (Cons LBrace) (lex cs)
      else if c = 0x7D then map_option (Cons RBrace) (lex cs)
      else if c = 0x5B then map_option (Cons LBracket) (lex cs)
      else if c = 0x5D then map_option (Cons RBracket) (lex cs)
      else if c = 0x3A then map_option (Cons Colon) (lex cs)
      else if c = 0x2C then map_option (Cons Comma) (lex cs)
      else if c = 0x22 then
        (case string_body cs of
           None \<Rightarrow> None
         | Some (s, r) \<Rightarrow> map_option (Cons (TStr s)) (lex r))
      else if c = 0x2D \<or> is_digit c then
        (case number (c # cs) of
           None \<Rightarrow> None
         | Some (n, r) \<Rightarrow> map_option (Cons (TNum n)) (lex r))
      else if take 4 (c # cs) = str ''true'' then map_option (Cons TTrue) (lex (drop 3 cs))
      else if take 5 (c # cs) = str ''false'' then map_option (Cons TFalse) (lex (drop 4 cs))
      else if take 4 (c # cs) = str ''null'' then map_option (Cons TNull) (lex (drop 3 cs))
      else None)"
  by pat_completeness auto
termination
proof (relation "measure length")
  show "wf (measure length)" by simp
next
  fix c cs x2 x y
  assume "string_body cs = Some x2" and "(x, y) = x2"
  then have "string_body cs = Some (x, y)" by simp
  then have "length y \<le> length cs" by (rule string_body_shorter)
  then show "(y, c # cs) \<in> measure length" by simp
next
  fix c cs x2 x y
  assume "number (c # cs) = Some x2" and "(x, y) = x2"
  then have "number (c # cs) = Some (x, y)" by simp
  then have "length y < length (c # cs)" by (rule number_shorter)
  then show "(y, c # cs) \<in> measure length" by simp
qed simp_all

text \<open>
  The recogniser keeps a stack of the containers that are still open. \<open>ArrF es\<close> is an
  array with the elements read so far, \<open>ObjF ms\<close> an object with its members so far,
  \<open>MemberF ms k\<close> an object whose member \<open>k\<close> still waits for its value.
\<close>

datatype frame =
    ArrF "json list"
  | ObjF "(js_string \<times> json) list"
  | MemberF "(js_string \<times> json) list" js_string

datatype expect =
    Value          \<comment> \<open>a value must follow\<close>
  | ValueOrClose   \<comment> \<open>after \<^verbatim>\<open>[\<close>: a value or \<^verbatim>\<open>]\<close>\<close>
  | KeyOrClose     \<comment> \<open>after \<^verbatim>\<open>{\<close>: a key or \<^verbatim>\<open>}\<close>\<close>
  | Key            \<comment> \<open>after a comma in an object\<close>
  | KeyColon       \<comment> \<open>after a key\<close>
  | Next           \<comment> \<open>after a value inside a container: a comma or the closing bracket\<close>

datatype pstate = Parsing expect "frame list" | Done json

text \<open>A property written twice keeps its first position and its last value.\<close>

fun set_prop :: "js_string \<Rightarrow> json \<Rightarrow> (js_string \<times> json) list \<Rightarrow> (js_string \<times> json) list" where
  "set_prop k v [] = [(k, v)]"
| "set_prop k v ((k', v') # ms) = (if k = k' then (k, v) # ms else (k', v') # set_prop k v ms)"

fun place :: "json \<Rightarrow> frame list \<Rightarrow> pstate option" where
  "place v [] = Some (Done v)"
| "place v (ArrF es # st) = Some (Parsing Next (ArrF (es @ [v]) # st))"
| "place v (MemberF ms k # st) = Some (Parsing Next (ObjF (set_prop k v ms) # st))"
| "place v (ObjF ms # st) = None"

fun start_value :: "token \<Rightarrow> frame list \<Rightarrow> pstate option" where
  "start_value LBracket st = Some (Parsing ValueOrClose (ArrF [] # st))"
| "start_value LBrace st = Some (Parsing KeyOrClose (ObjF [] # st))"
| "start_value (TStr s) st = place (JStr s) st"
| "start_value (TNum n) st = place (JNum n) st"
| "start_value TTrue st = place (JBool True) st"
| "start_value TFalse st = place (JBool False) st"
| "start_value TNull st = place JNull st"
| "start_value _ st = None"

fun close_array :: "frame list \<Rightarrow> pstate option" where
  "close_array (ArrF es # st) = place (JArr es) st"
| "close_array _ = None"

fun close_object :: "frame list \<Rightarrow> pstate option" where
  "close_object (ObjF ms # st) = place (JObj ms) st"
| "close_object _ = None"

fun begin_member :: "js_string \<Rightarrow> frame list \<Rightarrow> pstate option" where
  "begin_member k (ObjF ms # st) = Some (Parsing KeyColon (MemberF ms k # st))"
| "begin_member k _ = None"

fun after_comma :: "frame list \<Rightarrow> pstate option" where
  "after_comma (ArrF es # st) = Some (Parsing Value (ArrF es # st))"
| "after_comma (ObjF ms # st) = Some (Parsing Key (ObjF ms # st))"
| "after_comma _ = None"

fun expecting :: "expect \<Rightarrow> frame list \<Rightarrow> token \<Rightarrow> pstate option" where
  "expecting Value st t = start_value t st"
| "expecting ValueOrClose st t = (if t = RBracket then close_array st else start_value t st)"
| "expecting KeyOrClose st t =
     (case t of RBrace \<Rightarrow> close_object st | TStr k \<Rightarrow> begin_member k st | _ \<Rightarrow> None)"
| "expecting Key st t = (case t of TStr k \<Rightarrow> begin_member k st | _ \<Rightarrow> None)"
| "expecting KeyColon st t = (if t = Colon then Some (Parsing Value st) else None)"
| "expecting Next st t =
     (case t of
        Comma \<Rightarrow> after_comma st
      | RBracket \<Rightarrow> close_array st
      | RBrace \<Rightarrow> close_object st
      | _ \<Rightarrow> None)"

fun step :: "pstate \<Rightarrow> token \<Rightarrow> pstate option" where
  "step (Done v) t = None"
| "step (Parsing e st) t = expecting e st t"

fun run_tokens :: "pstate \<Rightarrow> token list \<Rightarrow> json option" where
  "run_tokens (Done v) [] = Some v"
| "run_tokens (Parsing e st) [] = None"
| "run_tokens p (t # ts) = (case step p t of None \<Rightarrow> None | Some p' \<Rightarrow> run_tokens p' ts)"

definition JSON_parse :: "js_string \<Rightarrow> json option" where
  "JSON_parse text = (case lex text of None \<Rightarrow> None | Some ts \<Rightarrow> run_tokens (Parsing Value []) ts)"

subsection \<open>String methods used by the component\<close>

text \<open>
  \<^verbatim>\<open>responseText.replace(/```json|```|`/g, '')\<close>: the text is scanned from the left;
  where a fence with the label \<^verbatim>\<open>json\<close>, a bare fence or a single backtick starts
  (tried in this order), it is dropped, and the scan goes on behind it.
\<close>

fun remove_fences :: "js_string \<Rightarrow> js_string" where
  "remove_fences [] = []"
| "remove_fences (c # cs) =
     (if take 7 (c # cs) = str ''```json'' then remove_fences (drop 6 cs)
      else if take 3 (c # cs) = str ''```'' then remove_fences (drop 2 cs)
      else if c = 0x60 then remove_fences cs
      else c # remove_fences cs)"

text \<open>
  \<^verbatim>\<open>String.prototype.trim\<close> strips the white space and line terminators of the
  language from both ends.
\<close>

definition is_js_space :: "code_unit \<Rightarrow> bool" where
  "is_js_space c =
     (c \<in> set [0x09, 0x0A, 0x0B, 0x0C, 0x0D, 0x20, 0xA0, 0x1680, 0x2028, 0x2029,
                0x202F, 0x205F, 0x3000, 0xFEFF]
      \<or> (0x2000 \<le> c \<and> c \<le> 0x200A))"

definition trim :: "js_string \<Rightarrow> js_string" where
  "trim s = rev (dropWhile is_js_space (rev (dropWhile is_js_space s)))"

text \<open>
  \<^verbatim>\<open>responseText.match(/\{[\s\S]*?\}/)\<close>: the leftmost match of an opening brace, as
  few characters of any kind as possible, and a closing brace. The match starts at the
  first opening brace and ends at the first closing brace behind it; there is none when
  no closing brace follows the first opening one.
\<close>

definition match_object :: "js_string \<Rightarrow> js_string option" where
  "match_object text =
     (case dropWhile (\<lambda>c. c \<noteq> 0x7B) text of
        [] \<Rightarrow> None
      | b # rest \<Rightarrow>
          if 0x7D \<in> set rest then Some (b # takeWhile (\<lambda>c. c \<noteq> 0x7D) rest @ [0x7D])
          else None)"

text \<open>\<^verbatim>\<open>Array.prototype.join\<close> on an array of strings.\<close>

fun join :: "js_string \<Rightarrow> js_string list \<Rightarrow> js_string" where
  "join sep [] = []"
| "join sep [x] = x"
| "join sep (x # y # ys) = x @ sep @ join sep (y # ys)"

text \<open>
  Reading a property of a parsed value, \<^verbatim>\<open>parsedResult?.ratings\<close>: only an object has
  properties of its own, and neither \<^verbatim>\<open>null\<close> nor the prototypes of the other values
  have the properties the component reads. \<open>None\<close> is \<^verbatim>\<open>undefined\<close>.
\<close>

fun get_prop :: "json \<Rightarrow> js_string \<Rightarrow> json option" where
  "get_prop (JObj ms) k = map_of ms k"
| "get_prop _ k = None"

datatype js_type = Undefined | Object | Boolean | Number | String

fun typeof :: "json option \<Rightarrow> js_type" where
  "typeof None = Undefined"
| "typeof (Some JNull) = Object"
| "typeof (Some (JBool b)) = Boolean"
| "typeof (Some (JNum n)) = Number"
| "typeof (Some (JStr s)) = String"
| "typeof (Some (JArr es)) = Object"
| "typeof (Some (JObj ms)) = Object"

section \<open>Errors and effects\<close>

text \<open>
  One constructor for each place an exception comes from. \<open>SyntaxError\<close> is what
  \<^verbatim>\<open>JSON.parse\<close> throws and \<open>ServiceError\<close> a rejection of the generative-AI call;
  \<open>StoreError\<close> is a failure of the document store. The others are the
  \<^verbatim>\<open>new Error(...)\<close> of the source.
\<close>

datatype error =
    SyntaxError
  | CouldNotExtract
  | InvalidJsonFormat error
  | InvalidResponseStructure
  | ServiceError
  | StoreError

text \<open>
  The message of an error. The messages of the errors that come from outside are not
  fixed by the source; \<open>ext\<close> supplies them.
\<close>

fun message :: "(error \<Rightarrow> js_string) \<Rightarrow> error \<Rightarrow> js_string" where
  "message ext CouldNotExtract = str ''Could not extract valid JSON''"
| "message ext (InvalidJsonFormat finalError) = str ''Invalid JSON format: '' @ message ext finalError"
| "message ext InvalidResponseStructure = str ''Invalid response structure''"
| "message ext e = ext e"

datatype logged = LText js_string | LError error

datatype effect =
    ConsoleLog js_string logged
  | ConsoleError js_string logged
  | ToastInfo js_string js_string
  | ToastSuccess js_string js_string
  | ToastError js_string js_string
  | StartSpeechToText
  | StopSpeechToText
  | SendMessage js_string
  | SetTimeout nat "effect list"

section \<open>The response parser\<close>

text \<open>
  \<^verbatim>\<open>cleanJsonResponse\<close> (lines 95 to 118) is three nested \<^verbatim>\<open>try\<close> blocks.
  \<open>extract_json\<close> is the body of the innermost one; \<open>cleanJsonResponse\<close> returns what
  was written to the console and either the parsed value or the error thrown.
\<close>

definition extract_json :: "js_string \<Rightarrow> error + json" where
  "extract_json responseText =
     (case match_object responseText of
        Some jsonMatch \<Rightarrow>
          (case JSON_parse jsonMatch of Some v \<Rightarrow> Inr v | None \<Rightarrow> Inl SyntaxError)
      | None \<Rightarrow> Inl CouldNotExtract)"

definition cleanJsonResponse :: "js_string \<Rightarrow> effect list \<times> (error + json)" where
  "cleanJsonResponse responseText =
     (case JSON_parse responseText of
        Some v \<Rightarrow> ([], Inr v)
      | None \<Rightarrow>
          (case JSON_parse (trim (remove_fences responseText)) of
             Some v \<Rightarrow> ([], Inr v)
           | None \<Rightarrow>
               (case extract_json responseText of
                  Inr v \<Rightarrow> ([], Inr v)
                | Inl finalError \<Rightarrow>
                    ([ConsoleError (str ''JSON parsing failed:'') (LText responseText)],
                     Inl (InvalidJsonFormat finalError)))))"

section \<open>The component\<close>

text \<open>
  What a render of \<^verbatim>\<open>RecordAnswer\<close> reads and does not own: the question it was given,
  the signed-in user, the interview of the route, and the values of the speech hook. An
  entry of \<open>results\<close> is an object with the transcript of a finished utterance, or (in
  the hook's legacy mode) a bare string.
\<close>

datatype speech_result =
    Legacy js_string
  | Result (transcript: js_string) (timestamp: nat)

record props =
  question :: js_string
  answer :: js_string
  userId :: js_string
  interviewId :: js_string
  isRecording :: bool
  results :: "speech_result list"

text \<open>
  The state of the component (lines 58 to 62). \<open>aiResult\<close> is \<open>None\<close> for
  \<^verbatim>\<open>null\<close>, and otherwise the parsed object \<^verbatim>\<open>generateResult\<close> returned; \<open>isOpen\<close> is the
  state variable \<^verbatim>\<open>open\<close>.
\<close>

record state =
  userAnswer :: js_string
  isAiGenerating :: bool
  aiResult :: "json option"
  isOpen :: bool
  loading :: bool

subsection \<open>Aggregating the transcript\<close>

text \<open>
  The effect of lines 233 to 243. It runs when \<open>results\<close> has changed and writes the
  answer only when there is at least one result.
\<close>

fun is_string :: "speech_result \<Rightarrow> bool" where
  "is_string (Legacy s) = True"
| "is_string (Result t ts) = False"

definition combineTranscripts :: "speech_result list \<Rightarrow> js_string" where
  "combineTranscripts rs = join (str '' '') (map transcript (filter (\<lambda>r. \<not> is_string r) rs))"

definition transcript_effect :: "props \<Rightarrow> state \<Rightarrow> state" where
  "transcript_effect p st =
     (if length (results p) > 0 then st\<lparr>userAnswer := combineTranscripts (results p)\<rparr> else st)"

subsection \<open>Evaluating an answer\<close>

definition make_prompt :: "js_string \<Rightarrow> js_string \<Rightarrow> js_string \<Rightarrow> js_string" where
  \<open>make_prompt qst qstAns userAns =
     str ''\<newline>      Question: "'' @ qst @
     str ''"\<newline>      User Answer: "'' @ userAns @
     str ''"\<newline>      Correct Answer: "'' @ qstAns @
     str ''"\<newline>      Please compare the user's answer to the correct answer, and provide a rating (from 1 to 10) based on answer quality, and offer feedback for improvement.\<newline>      Return the result in JSON format with ONLY the fields "ratings" (number) and "feedback" (string).\<newline>      The response should be valid JSON without code block formatting.\<newline>    ''\<close>

text \<open>What the generative-AI service does with a prompt: it fails, or answers a text.\<close>

datatype reply = Rejected | Response js_string

text \<open>
  The \<^verbatim>\<open>try\<close> block of \<^verbatim>\<open>generateResult\<close> (lines 135 to 146), after the message was
  sent: what it writes to the console, and the validated object or the error thrown.
\<close>

definition validate :: "json \<Rightarrow> error + json" where
  "validate parsedResult =
     (if typeof (get_prop parsedResult (str ''ratings'')) \<noteq> Number
         \<or> typeof (get_prop parsedResult (str ''feedback'')) \<noteq> String
      then Inl InvalidResponseStructure
      else Inr parsedResult)"

definition receive :: "reply \<Rightarrow> effect list \<times> (error + json)" where
  "receive r =
     (case r of
        Rejected \<Rightarrow> ([], Inl ServiceError)
      | Response text \<Rightarrow>
          (case cleanJsonResponse text of
             (logs, Inl e) \<Rightarrow> (ConsoleLog (str ''Raw AI response:'') (LText text) # logs, Inl e)
           | (logs, Inr parsedResult) \<Rightarrow>
               (ConsoleLog (str ''Raw AI response:'') (LText text) # logs, validate parsedResult)))"

text \<open>
  \<^verbatim>\<open>generateResult\<close> (lines 120 to 156) sends the prompt, and on an error logs it, shows
  a notification and throws it again. \<open>isAiGenerating\<close> is set while the call is
  pending and reset at the end; a handler is modelled as one step, so only the reset is
  seen in the state returned.
\<close>

definition generateResult ::
  "reply \<Rightarrow> js_string \<Rightarrow> js_string \<Rightarrow> js_string \<Rightarrow> state \<Rightarrow> (error + json) \<times> state \<times> effect list" where
  "generateResult r qst qstAns userAns st =
     (case receive r of
        (logs, Inr v) \<Rightarrow>
          (Inr v, st\<lparr>isAiGenerating := False\<rparr>, SendMessage (make_prompt qst qstAns userAns) # logs)
      | (logs, Inl e) \<Rightarrow>
          (Inl e, st\<lparr>isAiGenerating := False\<rparr>,
           SendMessage (make_prompt qst qstAns userAns) # logs @
           [ConsoleError (str ''AI generation error:'') (LError e),
            ToastError (str ''Error'') (str ''An error occurred while generating feedback.'')]))"

subsection \<open>The handlers of the buttons\<close>

text \<open>\<^verbatim>\<open>recordUserAnswer\<close> (lines 67 to 93), the handler of the record button.\<close>

definition recordUserAnswer :: "reply \<Rightarrow> props \<Rightarrow> state \<Rightarrow> state \<times> effect list" where
  "recordUserAnswer r p st =
     (if isRecording p then
        (case generateResult r (question p) (answer p) (userAnswer st) st of
           (Inr v, st', effs) \<Rightarrow> (st'\<lparr>aiResult := Some v\<rparr>, StopSpeechToText # effs)
         | (Inl e, st', effs) \<Rightarrow>
             (st', StopSpeechToText # effs @
                [ConsoleError (str ''Error generating AI result:'') (LError e),
                 ToastError (str ''Error'') (str ''Failed to generate feedback. Please try again.'')]))
      else
        (st, [StartSpeechToText,
              ToastInfo (str ''Recording started'') (str ''Speak clearly into your microphone'')]))"

text \<open>
  \<^verbatim>\<open>recordNewAnswer\<close> (lines 158 to 170). The restart is the callback of a timer of
  300 milliseconds: it is an effect that carries the effects of the callback.
\<close>

definition recordNewAnswer :: "props \<Rightarrow> state \<Rightarrow> state \<times> effect list" where
  "recordNewAnswer p st =
     (st\<lparr>userAnswer := [], aiResult := None\<rparr>,
      (if isRecording p then [StopSpeechToText] else []) @
      [SetTimeout 300
         [StartSpeechToText,
          ToastInfo (str ''Recording new answer'') (str ''Previous answer has been cleared'')]])"

subsection \<open>Saving\<close>

text \<open>
  A document of the collection \<^verbatim>\<open>userAnswers\<close>, with the fields \<^verbatim>\<open>addDoc\<close> is given
  (\<open>doc_question\<close> and \<open>doc_userId\<close> are its fields \<^verbatim>\<open>question\<close> and \<^verbatim>\<open>userId\<close>). The
  store is the list of its documents. A call of the store can fail; \<open>now\<close> is the
  time stamp the server assigns.
\<close>

record answer_doc =
  mockIdRef :: js_string
  doc_question :: js_string
  correct_ans :: js_string
  user_ans :: js_string
  feedback :: "json option"
  rating :: "json option"
  doc_userId :: js_string
  createdAt :: nat

datatype store_fault = NoFault | QueryFails | InsertFails

definition matches :: "props \<Rightarrow> answer_doc \<Rightarrow> bool" where
  "matches p d =
     (doc_userId d = userId p \<and> doc_question d = question p \<and> mockIdRef d = interviewId p)"

definition new_doc :: "nat \<Rightarrow> props \<Rightarrow> state \<Rightarrow> json \<Rightarrow> answer_doc" where
  "new_doc now p st r =
     \<lparr>mockIdRef = interviewId p, doc_question = question p, correct_ans = answer p,
      user_ans = userAnswer st, feedback = get_prop r (str ''feedback''),
      rating = get_prop r (str ''ratings''), doc_userId = userId p, createdAt = now\<rparr>"

text \<open>
  The \<^verbatim>\<open>try\<close> block of \<^verbatim>\<open>saveUserAnswer\<close> (lines 183 to 221): the query for an
  earlier answer, then the notification, or the insert and the reset of the state.
\<close>

definition try_save ::
  "store_fault \<Rightarrow> nat \<Rightarrow> props \<Rightarrow> json \<Rightarrow> state \<Rightarrow> answer_doc list
     \<Rightarrow> error + (state \<times> answer_doc list \<times> effect list)" where
  "try_save fault now p r st docs =
     (if fault = QueryFails then Inl StoreError
      else if filter (matches p) docs \<noteq> [] then
        Inr (st, docs,
             [ToastInfo (str ''Already Answered'') (str ''You have already answered this question'')])
      else if fault = InsertFails then Inl StoreError
      else
        Inr (st\<lparr>userAnswer := [], aiResult := None\<rparr>,
             docs @ [new_doc now p st r],
             ToastSuccess (str ''Saved'') (str ''Your answer has been saved successfully'') #
             (if isRecording p then [StopSpeechToText] else [])))"

text \<open>\<^verbatim>\<open>saveUserAnswer\<close> (lines 172 to 231).\<close>

definition saveUserAnswer ::
  "store_fault \<Rightarrow> nat \<Rightarrow> props \<Rightarrow> state \<Rightarrow> answer_doc list
     \<Rightarrow> state \<times> answer_doc list \<times> effect list" where
  "saveUserAnswer fault now p st docs =
     (case aiResult st of
        None \<Rightarrow> (st, docs, [ToastError (str ''Error'') (str ''No feedback available to save'')])
      | Some r \<Rightarrow>
          (case try_save fault now p r (st\<lparr>loading := True\<rparr>) docs of
             Inr (st', docs', effs) \<Rightarrow> (st'\<lparr>loading := False, isOpen := False\<rparr>, docs', effs)
           | Inl e \<Rightarrow>
               (st\<lparr>loading := False, isOpen := False\<rparr>, docs,
                [ConsoleError (str ''Error saving answer:'') (LError e),
                 ToastError (str ''Error'') (str ''An error occurred while saving your answer.'')])))"

section \<open>The notions of the specification\<close>

text \<open>
  The aggregation as the specification words it: the texts of the final segments, in
  the order of arrival, with a single space between two neighbours. A final segment is
  an entry of \<open>results\<close> that is a result object.
\<close>

fun final_texts :: "speech_result list \<Rightarrow> js_string list" where
  "final_texts [] = []"
| "final_texts (Legacy s # rs) = final_texts rs"
| "final_texts (Result t ts # rs) = t # final_texts rs"

fun intersperse :: "'a \<Rightarrow> 'a list \<Rightarrow> 'a list" where
  "intersperse sep [] = []"
| "intersperse sep [x] = [x]"
| "intersperse sep (x # y # ys) = x # sep # intersperse sep (y # ys)"

definition spec_aggregate :: "speech_result list \<Rightarrow> js_string" where
  "spec_aggregate rs = concat (intersperse (str '' '') (final_texts rs))"

text \<open>The three tiers of the parser, each failing on a text.\<close>

definition tier1_fails :: "js_string \<Rightarrow> bool" where
  "tier1_fails text = (JSON_parse text = None)"

definition tier2_fails :: "js_string \<Rightarrow> bool" where
  "tier2_fails text = (JSON_parse (trim (remove_fences text)) = None)"

definition tier3_fails :: "js_string \<Rightarrow> bool" where
  "tier3_fails text =
     (case match_object text of None \<Rightarrow> True | Some jsonMatch \<Rightarrow> JSON_parse jsonMatch = None)"

text \<open>
  The data model of the specification asks of an \<^verbatim>\<open>AIResponse\<close> a rating that is an
  integer from 1 to 10.
\<close>

definition spec_rating_in_range :: "json \<Rightarrow> bool" where
  "spec_rating_in_range v =
     (case get_prop v (str ''ratings'') of
        Some (JNum n) \<Rightarrow> n = of_int \<lfloor>n\<rfloor> \<and> 1 \<le> n \<and> n \<le> 10
      | _ \<Rightarrow> False)"

subsection \<open>Recording sessions\<close>

text \<open>
  Modelled from the spec: the speech engine. The hook that drives it is a dependency of
  the repository, not part of its source. The specification (section 6) has it produce
  an ordered, growing sequence of segments and expose start and stop. Here it obeys a
  command at once, and a segment it delivers is appended to \<open>results\<close>, after which the
  effect of the component runs. \<open>session_from\<close> remembers how many results there were
  when the capture was last started: the results behind it are those received during
  the session.
\<close>

datatype event = Toggle reply | Segment speech_result

record world =
  w_props :: props
  w_state :: state
  session_from :: nat

fun engine :: "effect \<Rightarrow> props \<Rightarrow> props" where
  "engine StartSpeechToText p = p\<lparr>isRecording := True\<rparr>"
| "engine StopSpeechToText p = p\<lparr>isRecording := False\<rparr>"
| "engine e p = p"

fun handle :: "event \<Rightarrow> world \<Rightarrow> world" where
  "handle (Toggle r) w =
     (case recordUserAnswer r (w_props w) (w_state w) of
        (st', effs) \<Rightarrow>
          \<lparr>w_props = fold engine effs (w_props w),
           w_state = st',
           session_from =
             (if StartSpeechToText \<in> set effs then length (results (w_props w))
              else session_from w)\<rparr>)"
| "handle (Segment s) w =
     \<lparr>w_props = (w_props w)\<lparr>results := results (w_props w) @ [s]\<rparr>,
      w_state = transcript_effect ((w_props w)\<lparr>results := results (w_props w) @ [s]\<rparr>) (w_state w),
      session_from = session_from w\<rparr>"

definition run :: "event list \<Rightarrow> world \<Rightarrow> world" where
  "run evs w = fold handle evs w"

definition session_text :: "world \<Rightarrow> js_string" where
  "session_text w = combineTranscripts (drop (session_from w) (results (w_props w)))"

fun sent_prompts :: "effect list \<Rightarrow> js_string list" where
  "sent_prompts [] = []"
| "sent_prompts (SendMessage prompt # es) = prompt # sent_prompts es"
| "sent_prompts (e # es) = sent_prompts es"

text \<open>
  The component as it is mounted: nothing recorded, no answer, no evaluation.
\<close>

definition mounted :: "props \<Rightarrow> world" where
  "mounted p =
     \<lparr>w_props = p,
      w_state = \<lparr>userAnswer = [], isAiGenerating = False, aiResult = None,
                  isOpen = False, loading = False\<rparr>,
      session_from = 0\<rparr>"

text \<open>
  What the claim about the prompt asks the prompt of an evaluation to be: the prompt for
  the text of the session.
\<close>

definition claimed_prompt :: "world \<Rightarrow> js_string" where
  "claimed_prompt w = make_prompt (question (w_props w)) (answer (w_props w)) (session_text w)"

subsection \<open>Sample values\<close>

definition sample_props :: "bool \<Rightarrow> props" where
  "sample_props recording =
     \<lparr>question = str ''Q'', answer = str ''A'', userId = str ''u1'', interviewId = str ''i1'',
      isRecording = recording, results = []\<rparr>"

definition sample_result :: json where
  "sample_result = JObj [(str ''ratings'', JNum 7), (str ''feedback'', JStr (str ''Good''))]"

definition sample_state :: state where
  "sample_state =
     \<lparr>userAnswer = str ''my answer'', isAiGenerating = False, aiResult = Some sample_result,
      isOpen = True, loading = False\<rparr>"

text \<open>
  A second recording session: the capture is started, one utterance arrives, the record
  button stops the capture and the answer is evaluated, and the record button starts
  the capture again. No segment has arrived since.
\<close>

definition second_session :: world where
  \<open>second_session =
     run [Toggle Rejected,
          Segment (Result (str ''my answer'') 0),
          Toggle (Response (str ''{"ratings":7,"feedback":"Good"}'')),
          Toggle Rejected]
       (mounted (sample_props False))\<close>

section \<open>Theorems\<close>

subsection \<open>Aggregation\<close>

lemma join_intersperse: "join sep xs = concat (intersperse sep xs)"
  by (induction sep xs rule: join.induct) simp_all

lemma final_texts_filter: "map transcript (filter (\<lambda>r. \<not> is_string r) rs) = final_texts rs"
  by (induction rs rule: final_texts.induct) simp_all

text \<open>
  C4. For every sequence of results, the aggregation the effect computes is the texts of
  exactly the final segments, in the order of arrival, with single spaces between them;
  an entry that is not final changes nothing, wherever it stands; and running the effect
  a second time on the same results leaves the state as the first run left it.
\<close>

theorem C4_aggregation:
  "combineTranscripts rs = spec_aggregate rs
   \<and> combineTranscripts (xs @ Legacy s # ys) = combineTranscripts (xs @ ys)
   \<and> transcript_effect p (transcript_effect p st) = transcript_effect p st"
proof -
  have a: "combineTranscripts rs = spec_aggregate rs" for rs
    by (simp add: combineTranscripts_def spec_aggregate_def final_texts_filter join_intersperse)
  have b: "combineTranscripts (xs @ Legacy s # ys) = combineTranscripts (xs @ ys)"
    by (simp add: combineTranscripts_def)
  have c: "transcript_effect p (transcript_effect p st) = transcript_effect p st"
    by (simp add: transcript_effect_def)
  from a b c show ?thesis by blast
qed

subsection \<open>The response parser\<close>

lemma dropWhile_first:
  "\<exists>r. dropWhile (\<lambda>c. c \<noteq> a) (pre @ a # tail) = a # r \<and> set tail \<subseteq> set r"
  by (induction pre) auto

lemma match_object_None:
  assumes "match_object text = None"
  shows "\<not> (\<exists>pre mid post. text = pre @ [0x7B] @ mid @ [0x7D] @ post)"
proof
  assume "\<exists>pre mid post. text = pre @ [0x7B] @ mid @ [0x7D] @ post"
  then obtain pre mid post where t: "text = pre @ 0x7B # (mid @ 0x7D # post)"
    by auto
  from dropWhile_first [of "0x7B" pre "mid @ 0x7D # post"] obtain r where
    "dropWhile (\<lambda>c. c \<noteq> 0x7B) text = 0x7B # r" and "set (mid @ 0x7D # post) \<subseteq> set r"
    unfolding t by blast
  then have "match_object text \<noteq> None"
    by (auto simp: match_object_def)
  with assms show False by simp
qed

lemma match_object_Some:
  assumes "match_object text = Some m"
  shows "\<exists>pre mid post. text = pre @ [0x7B] @ mid @ [0x7D] @ post
           \<and> 0x7B \<notin> set pre \<and> 0x7D \<notin> set mid \<and> m = [0x7B] @ mid @ [0x7D]"
proof -
  let ?lb = "\<lambda>c::nat. c \<noteq> 0x7B" and ?rb = "\<lambda>c::nat. c \<noteq> 0x7D"
  from assms obtain b rest where d: "dropWhile ?lb text = b # rest"
    by (cases "dropWhile ?lb text") (auto simp: match_object_def)
  with assms have r: "0x7D \<in> set rest" and m: "m = b # takeWhile ?rb rest @ [0x7D]"
    by (auto simp: match_object_def split: if_splits)
  from d have b: "b = 0x7B"
    using hd_dropWhile [of ?lb "text"] by auto
  have t: "text = takeWhile ?lb text @ b # rest"
    using takeWhile_dropWhile_id [of ?lb "text"] d by simp
  from r have "dropWhile ?rb rest \<noteq> []"
    by (auto simp: dropWhile_eq_Nil_conv)
  then obtain e post where dc: "dropWhile ?rb rest = e # post"
    by (cases "dropWhile ?rb rest") auto
  then have e: "e = 0x7D"
    using hd_dropWhile [of ?rb rest] by auto
  have rest: "rest = takeWhile ?rb rest @ e # post"
    using takeWhile_dropWhile_id [of ?rb rest] dc by simp
  have "text = takeWhile ?lb text @ [0x7B] @ takeWhile ?rb rest @ [0x7D] @ post"
    using t rest b e by simp
  moreover have "0x7B \<notin> set (takeWhile ?lb text)"
    by (auto dest: set_takeWhileD)
  moreover have "0x7D \<notin> set (takeWhile ?rb rest)"
    by (auto dest: set_takeWhileD)
  moreover have "m = [0x7B] @ takeWhile ?rb rest @ [0x7D]"
    using m b by simp
  ultimately show ?thesis by blast
qed

lemma decomposition_unique:
  assumes "pre @ [a] @ mid @ [b] @ post = pre' @ [a] @ mid' @ [b] @ post'"
    and "a \<notin> set pre" "a \<notin> set pre'" "b \<notin> set mid" "b \<notin> set mid'"
  shows "pre = pre' \<and> mid = mid' \<and> post = post'"
proof -
  have p: "pre = pre'"
    using assms(1,2,3)
  proof (induction pre arbitrary: pre')
    case Nil
    then show ?case by (cases pre') auto
  next
    case (Cons x xs)
    then show ?case by (cases pre') auto
  qed
  with assms(1) have eq: "mid @ [b] @ post = mid' @ [b] @ post'" by simp
  have "mid = mid'"
    using eq assms(4,5)
  proof (induction mid arbitrary: mid')
    case Nil
    then show ?case by (cases mid') auto
  next
    case (Cons x xs)
    then show ?case by (cases mid') auto
  qed
  with eq p show ?thesis by simp
qed


lemmas json_eval = JSON_parse_def is_json_ws_def is_digit_def hex_val_def escape_def digits_val_def
  sign_part_def int_part_def frac_part_def exp_sign_def exp_part_def number_value_def number_def

lemmas parser_eval = json_eval is_js_space_def trim_def match_object_def extract_json_def
  cleanJsonResponse_def tier1_fails_def tier2_fails_def tier3_fails_def

lemma typeof_Number: "typeof x = Number \<longleftrightarrow> (\<exists>n. x = Some (JNum n))"
  by (cases x rule: typeof.cases) simp_all

lemma typeof_String: "typeof x = String \<longleftrightarrow> (\<exists>s. x = Some (JStr s))"
  by (cases x rule: typeof.cases) simp_all

lemma clean_error: "snd (cleanJsonResponse t) = Inl e \<Longrightarrow> \<exists>e'. e = InvalidJsonFormat e'"
  by (auto simp: cleanJsonResponse_def split: option.splits sum.splits)

lemma message_differs:
  "message ext (InvalidJsonFormat e) \<noteq> message ext InvalidResponseStructure"
proof
  assume "message ext (InvalidJsonFormat e) = message ext InvalidResponseStructure"
  then have "take 9 (message ext (InvalidJsonFormat e)) = take 9 (message ext InvalidResponseStructure)"
    by simp
  then show False by simp
qed

lemma clean_tier3:
  assumes "tier1_fails t" and "tier2_fails t"
  shows "snd (cleanJsonResponse t) =
           (case match_object t of
              None \<Rightarrow> Inl (InvalidJsonFormat CouldNotExtract)
            | Some m \<Rightarrow> (case JSON_parse m of Some v \<Rightarrow> Inr v | None \<Rightarrow> Inl (InvalidJsonFormat SyntaxError)))"
  using assms
  by (simp add: cleanJsonResponse_def extract_json_def tier1_fails_def tier2_fails_def
      split: option.splits)

text \<open>
  C1. On every response text on which the direct parse and the fence-stripped parse
  both fail, the parser takes the part of the text from its first opening brace to the
  first closing brace behind it and parses that part; when the text has no opening
  brace with a closing brace behind it, the parser fails. In particular the text
  \<^verbatim>\<open>Here is the result: {"ratings":3,"feedback":"Needs work"} Thanks!\<close> yields the
  object with rating 3 and feedback \<^verbatim>\<open>Needs work\<close>.
\<close>

theorem C1_extraction_parse:
  \<open>(tier1_fails t \<and> tier2_fails t \<longrightarrow>
      (\<forall>pre mid post.
          t = pre @ [0x7B] @ mid @ [0x7D] @ post \<and> 0x7B \<notin> set pre \<and> 0x7D \<notin> set mid \<longrightarrow>
            snd (cleanJsonResponse t) =
              (case JSON_parse ([0x7B] @ mid @ [0x7D]) of
                 Some v \<Rightarrow> Inr v
               | None \<Rightarrow> Inl (InvalidJsonFormat SyntaxError)))
      \<and> ((\<nexists>pre mid post. t = pre @ [0x7B] @ mid @ [0x7D] @ post) \<longrightarrow>
            snd (cleanJsonResponse t) = Inl (InvalidJsonFormat CouldNotExtract)))
   \<and> snd (cleanJsonResponse (str ''Here is the result: {"ratings":3,"feedback":"Needs work"} Thanks!''))
       = Inr (JObj [(str ''ratings'', JNum 3), (str ''feedback'', JStr (str ''Needs work''))])\<close>
proof (intro conjI impI allI)
  fix pre mid post
  assume f: "tier1_fails t \<and> tier2_fails t"
    and d: "t = pre @ [0x7B] @ mid @ [0x7D] @ post \<and> 0x7B \<notin> set pre \<and> 0x7D \<notin> set mid"
  then have "match_object t \<noteq> None"
    using match_object_None [of t] by blast
  then obtain m where m: "match_object t = Some m" by auto
  from match_object_Some [OF m] obtain pre' mid' post' where
    d': "t = pre' @ [0x7B] @ mid' @ [0x7D] @ post'" "0x7B \<notin> set pre'" "0x7D \<notin> set mid'"
    and m': "m = [0x7B] @ mid' @ [0x7D]"
    by blast
  from d d' have "pre @ [0x7B] @ mid @ [0x7D] @ post = pre' @ [0x7B] @ mid' @ [0x7D] @ post'"
    by simp
  with d d' have "mid = mid'"
    using decomposition_unique [of pre "0x7B" mid "0x7D" post pre' mid' post'] by blast
  with m m' f show "snd (cleanJsonResponse t) =
      (case JSON_parse ([0x7B] @ mid @ [0x7D]) of
         Some v \<Rightarrow> Inr v
       | None \<Rightarrow> Inl (InvalidJsonFormat SyntaxError))"
    by (simp add: clean_tier3)
next
  assume f: "tier1_fails t \<and> tier2_fails t"
    and n: "\<nexists>pre mid post. t = pre @ [0x7B] @ mid @ [0x7D] @ post"
  have "match_object t = None"
  proof (cases "match_object t")
    case None
    then show ?thesis .
  next
    case (Some m)
    from match_object_Some [OF Some] n show ?thesis by blast
  qed
  with f show "snd (cleanJsonResponse t) = Inl (InvalidJsonFormat CouldNotExtract)"
    by (simp add: clean_tier3)
next
  show \<open>snd (cleanJsonResponse (str ''Here is the result: {"ratings":3,"feedback":"Needs work"} Thanks!''))
       = Inr (JObj [(str ''ratings'', JNum 3), (str ''feedback'', JStr (str ''Needs work''))])\<close>
    by (simp add: parser_eval)
qed

theorem C1_witness:
  \<open>tier1_fails (str ''ok {"a":[1]} {}'') \<and> tier2_fails (str ''ok {"a":[1]} {}'')
   \<and> str ''ok {"a":[1]} {}'' = str ''ok '' @ [0x7B] @ str ''"a":[1]'' @ [0x7D] @ str '' {}''
   \<and> 0x7B \<notin> set (str ''ok '') \<and> 0x7D \<notin> set (str ''"a":[1]'')
   \<and> snd (cleanJsonResponse (str ''ok {"a":[1]} {}'')) = Inr (JObj [(str ''a'', JArr [JNum 1])])\<close>
proof -
  have f: \<open>tier1_fails (str ''ok {"a":[1]} {}'') \<and> tier2_fails (str ''ok {"a":[1]} {}'')\<close>
    by (simp add: parser_eval)
  have d: \<open>str ''ok {"a":[1]} {}'' = str ''ok '' @ [0x7B] @ str ''"a":[1]'' @ [0x7D] @ str '' {}''
      \<and> 0x7B \<notin> set (str ''ok '') \<and> 0x7D \<notin> set (str ''"a":[1]'')\<close>
    by simp
  have p: \<open>JSON_parse ([0x7B] @ str ''"a":[1]'' @ [0x7D]) = Some (JObj [(str ''a'', JArr [JNum 1])])\<close>
    by (simp add: json_eval)
  from C1_extraction_parse [of \<open>str ''ok {"a":[1]} {}''\<close>] f d
  have \<open>snd (cleanJsonResponse (str ''ok {"a":[1]} {}'')) =
      (case JSON_parse ([0x7B] @ str ''"a":[1]'' @ [0x7D]) of
         Some v \<Rightarrow> Inr v
       | None \<Rightarrow> Inl (InvalidJsonFormat SyntaxError))\<close>
    by blast
  with p f d show ?thesis by simp
qed


text \<open>
  C7 (amended). On every text on which all three tiers fail, the parser writes the raw
  text to the console and throws an error whose message is \<^verbatim>\<open>Invalid JSON format: \<close>
  followed by the message of the error of the last tier; the parser fails on no other
  text. In particular it fails so on \<^verbatim>\<open>not json at all\<close>.
\<close>

theorem C7_parse_failure:
  \<open>(tier1_fails t \<and> tier2_fails t \<and> tier3_fails t \<longrightarrow>
      cleanJsonResponse t =
        ([ConsoleError (str ''JSON parsing failed:'') (LText t)],
         Inl (InvalidJsonFormat (if match_object t = None then CouldNotExtract else SyntaxError)))
      \<and> message ext (InvalidJsonFormat (if match_object t = None then CouldNotExtract else SyntaxError)) =
          str ''Invalid JSON format: '' @
          (if match_object t = None then str ''Could not extract valid JSON'' else ext SyntaxError))
   \<and> ((\<exists>e. snd (cleanJsonResponse t) = Inl e) \<longleftrightarrow> tier1_fails t \<and> tier2_fails t \<and> tier3_fails t)
   \<and> cleanJsonResponse (str ''not json at all'') =
        ([ConsoleError (str ''JSON parsing failed:'') (LText (str ''not json at all''))],
         Inl (InvalidJsonFormat CouldNotExtract))\<close>
proof (intro conjI impI)
  assume "tier1_fails t \<and> tier2_fails t \<and> tier3_fails t"
  then show "cleanJsonResponse t =
        ([ConsoleError (str ''JSON parsing failed:'') (LText t)],
         Inl (InvalidJsonFormat (if match_object t = None then CouldNotExtract else SyntaxError)))"
    by (auto simp: cleanJsonResponse_def extract_json_def tier1_fails_def tier2_fails_def
        tier3_fails_def split: option.splits)
next
  show "message ext (InvalidJsonFormat (if match_object t = None then CouldNotExtract else SyntaxError)) =
          str ''Invalid JSON format: '' @
          (if match_object t = None then str ''Could not extract valid JSON'' else ext SyntaxError)"
    by simp
next
  show "(\<exists>e. snd (cleanJsonResponse t) = Inl e) \<longleftrightarrow> tier1_fails t \<and> tier2_fails t \<and> tier3_fails t"
    by (auto simp: cleanJsonResponse_def extract_json_def tier1_fails_def tier2_fails_def
        tier3_fails_def split: option.splits)
next
  show "cleanJsonResponse (str ''not json at all'') =
        ([ConsoleError (str ''JSON parsing failed:'') (LText (str ''not json at all''))],
         Inl (InvalidJsonFormat CouldNotExtract))"
    by (simp add: parser_eval)
qed

theorem C7_witness:
  \<open>tier1_fails (str ''x {"a":{"b":1}} y'') \<and> tier2_fails (str ''x {"a":{"b":1}} y'')
   \<and> tier3_fails (str ''x {"a":{"b":1}} y'')
   \<and> match_object (str ''x {"a":{"b":1}} y'') = Some (str ''{"a":{"b":1}'')
   \<and> cleanJsonResponse (str ''x {"a":{"b":1}} y'') =
        ([ConsoleError (str ''JSON parsing failed:'') (LText (str ''x {"a":{"b":1}} y''))],
         Inl (InvalidJsonFormat SyntaxError))\<close>
proof -
  have f: \<open>tier1_fails (str ''x {"a":{"b":1}} y'') \<and> tier2_fails (str ''x {"a":{"b":1}} y'')
      \<and> tier3_fails (str ''x {"a":{"b":1}} y'')\<close>
    by (simp add: parser_eval)
  have m: \<open>match_object (str ''x {"a":{"b":1}} y'') = Some (str ''{"a":{"b":1}'')\<close>
    by (simp add: match_object_def)
  from C7_parse_failure [of \<open>str ''x {"a":{"b":1}} y''\<close>] f
  have \<open>cleanJsonResponse (str ''x {"a":{"b":1}} y'') =
        ([ConsoleError (str ''JSON parsing failed:'') (LText (str ''x {"a":{"b":1}} y''))],
         Inl (InvalidJsonFormat (if match_object (str ''x {"a":{"b":1}} y'') = None
            then CouldNotExtract else SyntaxError)))\<close>
    by blast
  with f m show ?thesis by simp
qed

text \<open>
  C7 (as stated, refuted). The error of a failed parse does not carry the raw text: two
  different texts on which all three tiers fail end in the same error value.
\<close>

theorem C7_counterexample:
  "tier1_fails (str ''not json at all'') \<and> tier2_fails (str ''not json at all'')
   \<and> tier3_fails (str ''not json at all'')
   \<and> snd (cleanJsonResponse (str ''not json at all'')) = Inl (InvalidJsonFormat CouldNotExtract)
   \<and> tier1_fails (str ''no json here'') \<and> tier2_fails (str ''no json here'')
   \<and> tier3_fails (str ''no json here'')
   \<and> snd (cleanJsonResponse (str ''no json here'')) = Inl (InvalidJsonFormat CouldNotExtract)
   \<and> str ''not json at all'' \<noteq> str ''no json here''"
  by (simp add: parser_eval)

subsection \<open>Evaluating an answer\<close>

lemmas sample_eval = sample_props_def sample_state_def sample_result_def

lemmas handler_eval = recordUserAnswer_def generateResult_def receive_def validate_def

lemma generate_result:
  "fst (generateResult (Response t) q a u st) =
     (case snd (cleanJsonResponse t) of Inl e \<Rightarrow> Inl e | Inr v \<Rightarrow> validate v)"
proof -
  obtain logs res where c: "cleanJsonResponse t = (logs, res)"
    by (cases "cleanJsonResponse t")
  show ?thesis
  proof (cases res)
    case (Inl e)
    with c show ?thesis by (simp add: generateResult_def receive_def)
  next
    case (Inr v)
    with c show ?thesis
      by (cases "validate v") (simp_all add: generateResult_def receive_def)
  qed
qed

lemma record_keeps_result:
  assumes "isRecording p" and "fst (generateResult r (question p) (answer p) (userAnswer st) st) = Inl e"
  shows "aiResult (fst (recordUserAnswer r p st)) = aiResult st"
proof -
  obtain res s' effs where g: "generateResult r (question p) (answer p) (userAnswer st) st = (res, s', effs)"
    by (rule prod_cases3)
  with assms(2) have res: "res = Inl e" by simp
  have "s' = st\<lparr>isAiGenerating := False\<rparr>"
    using g by (auto simp: generateResult_def split: prod.splits sum.splits)
  with g res assms(1) show ?thesis
    by (simp add: recordUserAnswer_def)
qed

text \<open>
  C6. When the parsed value does not have both a property \<^verbatim>\<open>ratings\<close> that is a number
  and a property \<^verbatim>\<open>feedback\<close> that is a string, the evaluation fails with the error
  \<^verbatim>\<open>Invalid response structure\<close> and the evaluation held before stays as it was; a
  failure of the parser is passed on as it is, and it is another error with another
  message. In particular a rating that is the string \<^verbatim>\<open>high\<close> is rejected.
\<close>

theorem C6_validation_error:
  \<open>(snd (cleanJsonResponse t) = Inr v
      \<and> (typeof (get_prop v (str ''ratings'')) \<noteq> Number \<or> typeof (get_prop v (str ''feedback'')) \<noteq> String)
      \<longrightarrow> fst (generateResult (Response t) q a u st) = Inl InvalidResponseStructure
          \<and> (isRecording p \<longrightarrow> aiResult (fst (recordUserAnswer (Response t) p st)) = aiResult st))
   \<and> (snd (cleanJsonResponse t) = Inl e
      \<longrightarrow> fst (generateResult (Response t) q a u st) = Inl e
          \<and> e \<noteq> InvalidResponseStructure
          \<and> message ext e \<noteq> message ext InvalidResponseStructure)
   \<and> fst (generateResult (Response (str ''{"ratings":"high","feedback":"ok"}'')) q a u st)
       = Inl InvalidResponseStructure\<close>
proof (intro conjI impI)
  assume a: "snd (cleanJsonResponse t) = Inr v
      \<and> (typeof (get_prop v (str ''ratings'')) \<noteq> Number \<or> typeof (get_prop v (str ''feedback'')) \<noteq> String)"
  then have v: "validate v = Inl InvalidResponseStructure"
    by (auto simp: validate_def)
  with a show g: "fst (generateResult (Response t) q a u st) = Inl InvalidResponseStructure" for q a u
    by (simp add: generate_result)
  assume "isRecording p"
  then show "aiResult (fst (recordUserAnswer (Response t) p st)) = aiResult st"
    using g by (rule record_keeps_result)
next
  assume a: "snd (cleanJsonResponse t) = Inl e"
  then show "fst (generateResult (Response t) q a u st) = Inl e"
    by (simp add: generate_result)
  from a obtain e' where e: "e = InvalidJsonFormat e'"
    using clean_error by blast
  then show "e \<noteq> InvalidResponseStructure" by simp
  from e show "message ext e \<noteq> message ext InvalidResponseStructure"
    using message_differs by simp
next
  have \<open>snd (cleanJsonResponse (str ''{"ratings":"high","feedback":"ok"}''))
      = Inr (JObj [(str ''ratings'', JStr (str ''high'')), (str ''feedback'', JStr (str ''ok''))])\<close>
    by (simp add: parser_eval)
  then show \<open>fst (generateResult (Response (str ''{"ratings":"high","feedback":"ok"}'')) q a u st)
       = Inl InvalidResponseStructure\<close>
    by (simp add: generate_result validate_def)
qed

theorem C6_witness:
  \<open>snd (cleanJsonResponse (str ''{"feedback":"ok"}'')) = Inr (JObj [(str ''feedback'', JStr (str ''ok''))])
   \<and> typeof (get_prop (JObj [(str ''feedback'', JStr (str ''ok''))]) (str ''ratings'')) \<noteq> Number
   \<and> isRecording (sample_props True)
   \<and> fst (generateResult (Response (str ''{"feedback":"ok"}'')) (str ''Q'') (str ''A'') (str ''u'') sample_state)
       = Inl InvalidResponseStructure
   \<and> aiResult (fst (recordUserAnswer (Response (str ''{"feedback":"ok"}'')) (sample_props True) sample_state))
       = Some sample_result
   \<and> snd (cleanJsonResponse (str ''no object'')) = Inl (InvalidJsonFormat CouldNotExtract)
   \<and> fst (generateResult (Response (str ''no object'')) (str ''Q'') (str ''A'') (str ''u'') sample_state)
       = Inl (InvalidJsonFormat CouldNotExtract)\<close>
proof -
  have c: \<open>snd (cleanJsonResponse (str ''{"feedback":"ok"}'')) = Inr (JObj [(str ''feedback'', JStr (str ''ok''))])\<close>
    by (simp add: parser_eval)
  have ty: "typeof (get_prop (JObj [(str ''feedback'', JStr (str ''ok''))]) (str ''ratings'')) \<noteq> Number"
    by simp
  have r: "isRecording (sample_props True) \<and> aiResult sample_state = Some sample_result"
    by (simp add: sample_eval)
  have n: "snd (cleanJsonResponse (str ''no object'')) = Inl (InvalidJsonFormat CouldNotExtract)"
    by (simp add: parser_eval)
  from C6_validation_error [of \<open>str ''{"feedback":"ok"}''\<close> "JObj [(str ''feedback'', JStr (str ''ok''))]"
      "str ''Q''" "str ''A''" "str ''u''" sample_state "sample_props True"] c ty r
  have \<open>fst (generateResult (Response (str ''{"feedback":"ok"}'')) (str ''Q'') (str ''A'') (str ''u'') sample_state)
       = Inl InvalidResponseStructure
     \<and> aiResult (fst (recordUserAnswer (Response (str ''{"feedback":"ok"}'')) (sample_props True) sample_state))
       = Some sample_result\<close>
    by simp
  moreover from C6_validation_error [where t = "str ''no object''" and e = "InvalidJsonFormat CouldNotExtract"
      and q = "str ''Q''" and a = "str ''A''" and u = "str ''u''" and st = sample_state] n
  have "fst (generateResult (Response (str ''no object'')) (str ''Q'') (str ''A'') (str ''u'') sample_state)
       = Inl (InvalidJsonFormat CouldNotExtract)"
    by blast
  ultimately show ?thesis using c ty r n by blast
qed

text \<open>
  C8 (amended). Every object a successful evaluation returns has a property
  \<^verbatim>\<open>ratings\<close> that is a number and a property \<^verbatim>\<open>feedback\<close> that is a string.
\<close>

theorem C8_typed_response:
  "fst (generateResult r q a u st) = Inr v \<longrightarrow>
     (\<exists>n. get_prop v (str ''ratings'') = Some (JNum n)) \<and> (\<exists>f. get_prop v (str ''feedback'') = Some (JStr f))"
proof
  assume g: "fst (generateResult r q a u st) = Inr v"
  have "validate v = Inr v"
  proof (cases r)
    case Rejected
    with g show ?thesis by (simp add: generateResult_def receive_def)
  next
    case (Response t)
    with g show ?thesis
      by (auto simp: generate_result validate_def split: sum.splits if_splits)
  qed
  then have "typeof (get_prop v (str ''ratings'')) = Number \<and> typeof (get_prop v (str ''feedback'')) = String"
    by (auto simp: validate_def split: if_splits)
  then show "(\<exists>n. get_prop v (str ''ratings'') = Some (JNum n)) \<and> (\<exists>f. get_prop v (str ''feedback'') = Some (JStr f))"
    by (simp add: typeof_Number typeof_String)
qed

theorem C8_witness:
  \<open>fst (generateResult (Response (str ''{"ratings":11,"feedback":"x"}'')) (str ''Q'') (str ''A'') (str ''u'') sample_state)
     = Inr (JObj [(str ''ratings'', JNum 11), (str ''feedback'', JStr (str ''x''))])
   \<and> (\<exists>n. get_prop (JObj [(str ''ratings'', JNum 11), (str ''feedback'', JStr (str ''x''))]) (str ''ratings'') = Some (JNum n))
   \<and> (\<exists>f. get_prop (JObj [(str ''ratings'', JNum 11), (str ''feedback'', JStr (str ''x''))]) (str ''feedback'') = Some (JStr f))\<close>
proof -
  have a: \<open>snd (cleanJsonResponse (str ''{"ratings":11,"feedback":"x"}''))
      = Inr (JObj [(str ''ratings'', JNum 11), (str ''feedback'', JStr (str ''x''))])\<close>
    by (simp add: parser_eval)
  then have g: \<open>fst (generateResult (Response (str ''{"ratings":11,"feedback":"x"}'')) (str ''Q'') (str ''A'') (str ''u'') sample_state)
     = Inr (JObj [(str ''ratings'', JNum 11), (str ''feedback'', JStr (str ''x''))])\<close>
    by (simp add: generate_result validate_def)
  with C8_typed_response [of \<open>Response (str ''{"ratings":11,"feedback":"x"}'')\<close> "str ''Q''" "str ''A''" "str ''u''"
      sample_state "JObj [(str ''ratings'', JNum 11), (str ''feedback'', JStr (str ''x''))]"]
  show ?thesis by blast
qed

text \<open>
  C8 (as stated, refuted). An evaluation succeeds on a response whose rating is 11, and
  on one whose rating is 7.5: neither is an integer from 1 to 10.
\<close>

theorem C8_counterexample:
  \<open>fst (generateResult (Response (str ''{"ratings":11,"feedback":"x"}'')) (str ''Q'') (str ''A'') (str ''u'') sample_state)
     = Inr (JObj [(str ''ratings'', JNum 11), (str ''feedback'', JStr (str ''x''))])
   \<and> \<not> spec_rating_in_range (JObj [(str ''ratings'', JNum 11), (str ''feedback'', JStr (str ''x''))])
   \<and> fst (generateResult (Response (str ''{"ratings":7.5,"feedback":"x"}'')) (str ''Q'') (str ''A'') (str ''u'') sample_state)
     = Inr (JObj [(str ''ratings'', JNum (15 / 2)), (str ''feedback'', JStr (str ''x''))])
   \<and> \<not> spec_rating_in_range (JObj [(str ''ratings'', JNum (15 / 2)), (str ''feedback'', JStr (str ''x''))])\<close>
proof -
  have a: \<open>snd (cleanJsonResponse (str ''{"ratings":11,"feedback":"x"}''))
      = Inr (JObj [(str ''ratings'', JNum 11), (str ''feedback'', JStr (str ''x''))])\<close>
    by (simp add: parser_eval)
  have b: \<open>snd (cleanJsonResponse (str ''{"ratings":7.5,"feedback":"x"}''))
      = Inr (JObj [(str ''ratings'', JNum (15 / 2)), (str ''feedback'', JStr (str ''x''))])\<close>
    by (simp add: parser_eval)
  have c: "\<not> spec_rating_in_range (JObj [(str ''ratings'', JNum 11), (str ''feedback'', JStr (str ''x''))])"
    by (simp add: spec_rating_in_range_def)
  have "\<lfloor>15 / 2 :: rat\<rfloor> = 7" by (simp add: floor_eq_iff)
  then have d: "\<not> spec_rating_in_range (JObj [(str ''ratings'', JNum (15 / 2)), (str ''feedback'', JStr (str ''x''))])"
    by (simp add: spec_rating_in_range_def)
  from a b c d show ?thesis
    by (simp add: generate_result validate_def)
qed

subsection \<open>The handlers of the buttons\<close>

lemma sent_prompts_append: "sent_prompts (xs @ ys) = sent_prompts xs @ sent_prompts ys"
  by (induction xs rule: sent_prompts.induct) simp_all

lemma clean_logs: "sent_prompts (fst (cleanJsonResponse t)) = []"
  by (simp add: cleanJsonResponse_def split: option.splits sum.splits)

lemma receive_logs: "sent_prompts (fst (receive r)) = []"
proof (cases r)
  case Rejected
  then show ?thesis by (simp add: receive_def)
next
  case (Response t)
  obtain logs res where c: "cleanJsonResponse t = (logs, res)"
    by (cases "cleanJsonResponse t")
  with clean_logs [of t] have "sent_prompts logs = []" by simp
  with Response c show ?thesis
    by (cases res) (simp_all add: receive_def)
qed

lemma generate_effects:
  "\<exists>rest. snd (snd (generateResult r q a u st)) = SendMessage (make_prompt q a u) # rest
          \<and> sent_prompts rest = []"
proof (cases "receive r")
  case (Pair logs res)
  with receive_logs [of r] have "sent_prompts logs = []" by simp
  with Pair show ?thesis
    by (cases res) (simp_all add: generateResult_def sent_prompts_append)
qed

lemma make_prompt_inj: "make_prompt q a u = make_prompt q a u' \<longleftrightarrow> u = u'"
  by (simp add: make_prompt_def)

lemma second_session_eval:
  "second_session =
     \<lparr>w_props = (sample_props True)\<lparr>results := [Result (str ''my answer'') 0]\<rparr>,
      w_state = \<lparr>userAnswer = str ''my answer'', isAiGenerating = False,
                 aiResult = Some sample_result, isOpen = False, loading = False\<rparr>,
      session_from = 1\<rparr>"
  by (simp add: second_session_def run_def mounted_def sample_eval handler_eval parser_eval
      transcript_effect_def combineTranscripts_def)

text \<open>
  C2 (amended). \<^verbatim>\<open>recordNewAnswer\<close> always leaves the answer empty and the evaluation
  \<^verbatim>\<open>null\<close>, whatever they were, and starts the capture only in the callback of its
  timer, after both were cleared. The record button pressed while nothing is recorded
  starts the capture and leaves the state as it is.
\<close>

theorem C2_new_answer_clears:
  "userAnswer (fst (recordNewAnswer p st)) = [] \<and> aiResult (fst (recordNewAnswer p st)) = None
   \<and> StartSpeechToText \<notin> set (snd (recordNewAnswer p st))
   \<and> SetTimeout 300 [StartSpeechToText,
        ToastInfo (str ''Recording new answer'') (str ''Previous answer has been cleared'')]
       \<in> set (snd (recordNewAnswer p st))
   \<and> (\<not> isRecording p \<longrightarrow>
        recordUserAnswer r p st =
          (st, [StartSpeechToText,
                ToastInfo (str ''Recording started'') (str ''Speak clearly into your microphone'')]))"
  by (simp add: recordNewAnswer_def recordUserAnswer_def)

theorem C2_witness:
  "\<not> isRecording (sample_props False)
   \<and> recordUserAnswer Rejected (sample_props False) sample_state =
       (sample_state, [StartSpeechToText,
          ToastInfo (str ''Recording started'') (str ''Speak clearly into your microphone'')])
   \<and> userAnswer (fst (recordNewAnswer (sample_props True) sample_state)) = []
   \<and> aiResult (fst (recordNewAnswer (sample_props True) sample_state)) = None"
proof -
  have h: "\<not> isRecording (sample_props False)"
    by (simp add: sample_eval)
  from C2_new_answer_clears [of "sample_props False" sample_state Rejected] h
  have "recordUserAnswer Rejected (sample_props False) sample_state =
       (sample_state, [StartSpeechToText,
          ToastInfo (str ''Recording started'') (str ''Speak clearly into your microphone'')])"
    by blast
  with h C2_new_answer_clears [of "sample_props True" sample_state Rejected] show ?thesis
    by blast
qed

text \<open>
  C2 (as stated, refuted). The record button pressed while nothing is recorded starts
  the capture and leaves a non-empty answer and an evaluation where they were.
\<close>

theorem C2_counterexample:
  "\<not> isRecording (sample_props False)
   \<and> StartSpeechToText \<in> set (snd (recordUserAnswer Rejected (sample_props False) sample_state))
   \<and> userAnswer (fst (recordUserAnswer Rejected (sample_props False) sample_state)) = str ''my answer''
   \<and> aiResult (fst (recordUserAnswer Rejected (sample_props False) sample_state)) = Some sample_result"
  by (simp add: recordUserAnswer_def sample_eval)

text \<open>
  C3 (amended). When the record button is pressed while recording, the command to stop
  the capture is the first effect and the message to the service the second, and the
  one prompt sent holds the answer the state has at that moment; when the effect of the
  component has just run on a non-empty \<open>results\<close>, that answer is the aggregation of
  all of \<open>results\<close>.
\<close>

theorem C3_prompt_at_toggle:
  "isRecording p \<longrightarrow>
     (\<exists>rest. snd (recordUserAnswer r p st) =
          StopSpeechToText # SendMessage (make_prompt (question p) (answer p) (userAnswer st)) # rest)
     \<and> sent_prompts (snd (recordUserAnswer r p st)) = [make_prompt (question p) (answer p) (userAnswer st)]
     \<and> (results p \<noteq> [] \<longrightarrow>
          sent_prompts (snd (recordUserAnswer r p (transcript_effect p st))) =
            [make_prompt (question p) (answer p) (combineTranscripts (results p))])"
proof
  assume rec: "isRecording p"
  have eff: "\<exists>rest. snd (recordUserAnswer r p s) =
          StopSpeechToText # SendMessage (make_prompt (question p) (answer p) (userAnswer s)) # rest
        \<and> sent_prompts rest = []" for s
  proof -
    obtain res s' effs where g: "generateResult r (question p) (answer p) (userAnswer s) s = (res, s', effs)"
      by (rule prod_cases3)
    with generate_effects [of r "question p" "answer p" "userAnswer s" s] obtain rest where
      e: "effs = SendMessage (make_prompt (question p) (answer p) (userAnswer s)) # rest"
      and n: "sent_prompts rest = []"
      by auto
    show ?thesis
      using rec g e n by (cases res) (simp_all add: recordUserAnswer_def sent_prompts_append)
  qed
  have u: "results p \<noteq> [] \<Longrightarrow> userAnswer (transcript_effect p st) = combineTranscripts (results p)"
    by (simp add: transcript_effect_def)
  from eff [of st] eff [of "transcript_effect p st"] u
  show "(\<exists>rest. snd (recordUserAnswer r p st) =
          StopSpeechToText # SendMessage (make_prompt (question p) (answer p) (userAnswer st)) # rest)
     \<and> sent_prompts (snd (recordUserAnswer r p st)) = [make_prompt (question p) (answer p) (userAnswer st)]
     \<and> (results p \<noteq> [] \<longrightarrow>
          sent_prompts (snd (recordUserAnswer r p (transcript_effect p st))) =
            [make_prompt (question p) (answer p) (combineTranscripts (results p))])"
    by auto
qed

theorem C3_witness:
  "isRecording ((sample_props True)\<lparr>results := [Result (str ''hello'') 1, Legacy (str ''x''), Result (str ''world'') 2]\<rparr>)
   \<and> sent_prompts (snd (recordUserAnswer Rejected
        ((sample_props True)\<lparr>results := [Result (str ''hello'') 1, Legacy (str ''x''), Result (str ''world'') 2]\<rparr>)
        sample_state))
       = [make_prompt (str ''Q'') (str ''A'') (str ''my answer'')]
   \<and> sent_prompts (snd (recordUserAnswer Rejected
        ((sample_props True)\<lparr>results := [Result (str ''hello'') 1, Legacy (str ''x''), Result (str ''world'') 2]\<rparr>)
        (transcript_effect
           ((sample_props True)\<lparr>results := [Result (str ''hello'') 1, Legacy (str ''x''), Result (str ''world'') 2]\<rparr>)
           sample_state)))
       = [make_prompt (str ''Q'') (str ''A'') (str ''hello world'')]"
proof -
  let ?p = "(sample_props True)\<lparr>results := [Result (str ''hello'') 1, Legacy (str ''x''), Result (str ''world'') 2]\<rparr>"
  have h: "isRecording ?p \<and> results ?p \<noteq> []"
    by (simp add: sample_eval)
  have v: "question ?p = str ''Q'' \<and> answer ?p = str ''A'' \<and> userAnswer sample_state = str ''my answer''
      \<and> combineTranscripts (results ?p) = str ''hello world''"
    by (simp add: sample_eval combineTranscripts_def)
  from C3_prompt_at_toggle [of ?p Rejected sample_state] h
  have "sent_prompts (snd (recordUserAnswer Rejected ?p sample_state))
          = [make_prompt (question ?p) (answer ?p) (userAnswer sample_state)]
     \<and> sent_prompts (snd (recordUserAnswer Rejected ?p (transcript_effect ?p sample_state)))
          = [make_prompt (question ?p) (answer ?p) (combineTranscripts (results ?p))]"
    by blast
  with h v show ?thesis by simp
qed

text \<open>
  C3 (as stated, refuted). In the second session no segment has arrived, so the text of
  the session is empty; the prompt sent when the record button stops the capture holds
  the answer of the first session.
\<close>

theorem C3_counterexample:
  "isRecording (w_props second_session)
   \<and> session_text second_session = []
   \<and> sent_prompts (snd (recordUserAnswer Rejected (w_props second_session) (w_state second_session)))
       = [make_prompt (str ''Q'') (str ''A'') (str ''my answer'')]
   \<and> claimed_prompt second_session = make_prompt (str ''Q'') (str ''A'') []
   \<and> make_prompt (str ''Q'') (str ''A'') (str ''my answer'') \<noteq> claimed_prompt second_session"
proof -
  have a: "isRecording (w_props second_session)"
    by (simp add: second_session_eval sample_eval)
  have b: "session_text second_session = []"
    by (simp add: second_session_eval session_text_def combineTranscripts_def sample_eval)
  have c: "sent_prompts (snd (recordUserAnswer Rejected (w_props second_session) (w_state second_session)))
       = [make_prompt (str ''Q'') (str ''A'') (str ''my answer'')]"
    by (simp add: second_session_eval sample_eval handler_eval)
  have d: "claimed_prompt second_session = make_prompt (str ''Q'') (str ''A'') []"
    by (simp add: claimed_prompt_def b) (simp add: second_session_eval sample_eval)
  have e: "make_prompt (str ''Q'') (str ''A'') (str ''my answer'') \<noteq> claimed_prompt second_session"
    by (simp add: d make_prompt_inj)
  from a b c d e show ?thesis by blast
qed

subsection \<open>Saving\<close>

lemma matches_key:
  "userId p2 = userId p \<Longrightarrow> question p2 = question p \<Longrightarrow> interviewId p2 = interviewId p
     \<Longrightarrow> matches p2 = matches p"
  by (rule ext) (simp add: matches_def)

lemma matches_new_doc: "matches p (new_doc now p st r)"
  by (simp add: matches_def new_doc_def)

text \<open>
  C5. When an evaluation is held and the query succeeds, a save that finds a stored
  document with the same user, question and interview shows the notification
  \<^verbatim>\<open>Already Answered\<close> and leaves the store as it was. So after a first save that
  wrote a document, any later save with the same three fields leaves the store with
  exactly one document for them, and is answered \<^verbatim>\<open>Already Answered\<close> when it reaches
  the store.
\<close>

theorem C5_save_once:
  assumes "aiResult st = Some r"
  shows "((\<exists>d \<in> set docs. matches p d) \<and> fault \<noteq> QueryFails \<longrightarrow>
            saveUserAnswer fault now p st docs =
              (st\<lparr>loading := False, isOpen := False\<rparr>, docs,
               [ToastInfo (str ''Already Answered'') (str ''You have already answered this question'')]))
       \<and> (filter (matches p) docs = []
            \<and> userId p2 = userId p \<and> question p2 = question p \<and> interviewId p2 = interviewId p
            \<and> saveUserAnswer NoFault now p st docs = (st1, docs1, effs1)
            \<and> saveUserAnswer fault2 now2 p2 st2 docs1 = (st3, docs3, effs3) \<longrightarrow>
              length (filter (matches p) docs1) = 1 \<and> docs3 = docs1
              \<and> (aiResult st2 \<noteq> None \<and> fault2 \<noteq> QueryFails \<longrightarrow>
                   effs3 = [ToastInfo (str ''Already Answered'') (str ''You have already answered this question'')]))"
proof (intro conjI impI)
  assume "(\<exists>d \<in> set docs. matches p d) \<and> fault \<noteq> QueryFails"
  then have "filter (matches p) docs \<noteq> []" and "fault \<noteq> QueryFails"
    by (auto simp: filter_empty_conv)
  with assms show "saveUserAnswer fault now p st docs =
      (st\<lparr>loading := False, isOpen := False\<rparr>, docs,
       [ToastInfo (str ''Already Answered'') (str ''You have already answered this question'')])"
    by (simp add: saveUserAnswer_def try_save_def)
next
  assume a: "filter (matches p) docs = []
      \<and> userId p2 = userId p \<and> question p2 = question p \<and> interviewId p2 = interviewId p
      \<and> saveUserAnswer NoFault now p st docs = (st1, docs1, effs1)
      \<and> saveUserAnswer fault2 now2 p2 st2 docs1 = (st3, docs3, effs3)"
  then have m: "matches p2 = matches p"
    by (intro matches_key) simp_all
  from a have none: "filter (matches p) docs = []"
    and s1: "saveUserAnswer NoFault now p st docs = (st1, docs1, effs1)"
    and s2: "saveUserAnswer fault2 now2 p2 st2 docs1 = (st3, docs3, effs3)"
    by blast+
  from s1 none assms have d1: "docs1 = docs @ [new_doc now p (st\<lparr>loading := True\<rparr>) r]"
    by (simp add: saveUserAnswer_def try_save_def)
  with none show one: "length (filter (matches p) docs1) = 1"
    by (simp add: matches_new_doc)
  then have "filter (matches p) docs1 \<noteq> []"
    by (cases "filter (matches p) docs1") simp_all
  then have ne: "filter (matches p2) docs1 \<noteq> []"
    by (simp add: m)
  have ts: "try_save f now2 p2 r2 s docs1 =
      (if f = QueryFails then Inl StoreError
       else Inr (s, docs1,
         [ToastInfo (str ''Already Answered'') (str ''You have already answered this question'')]))"
    for r2 s f
    using ne by (simp add: try_save_def)
  show "docs3 = docs1"
  proof (cases "aiResult st2")
    case None
    with s2 show ?thesis by (simp add: saveUserAnswer_def)
  next
    case (Some r2)
    with s2 show ?thesis
      by (cases "fault2 = QueryFails") (simp_all add: saveUserAnswer_def ts)
  qed
  assume "aiResult st2 \<noteq> None \<and> fault2 \<noteq> QueryFails"
  then obtain r2 where "aiResult st2 = Some r2" and "fault2 \<noteq> QueryFails"
    by auto
  with s2 show "effs3 = [ToastInfo (str ''Already Answered'') (str ''You have already answered this question'')]"
    by (simp add: saveUserAnswer_def ts)
qed

theorem C5_witness:
  "aiResult sample_state = Some sample_result
   \<and> filter (matches (sample_props False)) [] = []
   \<and> (case saveUserAnswer NoFault 5 (sample_props False) sample_state [] of
        (st1, docs1, effs1) \<Rightarrow>
          length (filter (matches (sample_props False)) docs1) = 1
          \<and> (\<exists>d \<in> set docs1. matches (sample_props True) d)
          \<and> saveUserAnswer NoFault 6 (sample_props True) sample_state docs1 =
               (sample_state\<lparr>loading := False, isOpen := False\<rparr>, docs1,
                [ToastInfo (str ''Already Answered'') (str ''You have already answered this question'')]))"
proof -
  obtain st1 docs1 effs1 where
    r1: "saveUserAnswer NoFault 5 (sample_props False) sample_state [] = (st1, docs1, effs1)"
    by (rule prod_cases3)
  obtain st3 docs3 effs3 where
    r2: "saveUserAnswer NoFault 6 (sample_props True) sample_state docs1 = (st3, docs3, effs3)"
    by (rule prod_cases3)
  have a: "aiResult sample_state = Some sample_result"
    by (simp add: sample_eval)
  have k: "filter (matches (sample_props False)) [] = []
      \<and> userId (sample_props True) = userId (sample_props False)
      \<and> question (sample_props True) = question (sample_props False)
      \<and> interviewId (sample_props True) = interviewId (sample_props False)"
    by (simp add: sample_eval)
  have m: "matches (sample_props True) = matches (sample_props False)"
    by (rule ext) (simp add: matches_def sample_eval)
  from C5_save_once [OF a, where p = "sample_props False" and docs = "[]"
      and ?p2.0 = "sample_props True" and now = 5 and ?st1.0 = st1 and ?docs1.0 = docs1
      and ?effs1.0 = effs1 and ?fault2.0 = NoFault and ?now2.0 = 6 and ?st2.0 = sample_state
      and ?st3.0 = st3 and ?docs3.0 = docs3 and ?effs3.0 = effs3] k r1 r2
  have one: "length (filter (matches (sample_props False)) docs1) = 1"
    by blast
  then have ex: "\<exists>d \<in> set docs1. matches (sample_props True) d"
    unfolding m by (cases "filter (matches (sample_props False)) docs1") (auto simp: filter_eq_Cons_iff)
  with C5_save_once [OF a, where docs = docs1 and p = "sample_props True" and fault = NoFault
      and now = 6]
  have "saveUserAnswer NoFault 6 (sample_props True) sample_state docs1 =
               (sample_state\<lparr>loading := False, isOpen := False\<rparr>, docs1,
                [ToastInfo (str ''Already Answered'') (str ''You have already answered this question'')])"
    by blast
  with one ex a show ?thesis by (simp add: r1)
qed

text \<open>
  C9. When an evaluation is held and the query of the store fails, or no earlier answer
  is found and the insert fails, the save ends in the error notification, the answer,
  the evaluation and the store are as before, and a save tried again from the state
  left behind does what it would have done from the state before.
\<close>

theorem C9_failed_save_keeps_state:
  assumes "saveUserAnswer fault now p st docs = (st', docs', effs)"
      and "aiResult st \<noteq> None"
      and "fault = QueryFails \<or> (fault = InsertFails \<and> filter (matches p) docs = [])"
  shows "userAnswer st' = userAnswer st \<and> aiResult st' = aiResult st \<and> docs' = docs
       \<and> effs = [ConsoleError (str ''Error saving answer:'') (LError StoreError),
                 ToastError (str ''Error'') (str ''An error occurred while saving your answer.'')]
       \<and> saveUserAnswer fault2 now2 p st' docs' = saveUserAnswer fault2 now2 p st docs"
proof -
  from assms(2) obtain r where r: "aiResult st = Some r" by auto
  from assms(3) have t: "try_save fault now p r (st\<lparr>loading := True\<rparr>) docs = Inl StoreError"
    by (auto simp: try_save_def)
  from assms(1) r t have st': "st' = st\<lparr>loading := False, isOpen := False\<rparr>"
    and d: "docs' = docs"
    and e: "effs = [ConsoleError (str ''Error saving answer:'') (LError StoreError),
                 ToastError (str ''Error'') (str ''An error occurred while saving your answer.'')]"
    by (auto simp: saveUserAnswer_def)
  have "saveUserAnswer fault2 now2 p st' docs' = saveUserAnswer fault2 now2 p st docs"
    unfolding st' d
    by (simp add: saveUserAnswer_def try_save_def new_doc_def r)
  with st' d e show ?thesis by simp
qed

theorem C9_witness:
  "aiResult sample_state \<noteq> None
   \<and> (case saveUserAnswer QueryFails 5 (sample_props False) sample_state [] of
        (st', docs', effs) \<Rightarrow>
          userAnswer st' = str ''my answer'' \<and> aiResult st' = Some sample_result \<and> docs' = []
          \<and> ToastError (str ''Error'') (str ''An error occurred while saving your answer.'') \<in> set effs)
   \<and> filter (matches (sample_props False)) [] = []
   \<and> (case saveUserAnswer InsertFails 5 (sample_props False) sample_state [] of
        (st', docs', effs) \<Rightarrow>
          userAnswer st' = str ''my answer'' \<and> aiResult st' = Some sample_result \<and> docs' = []
          \<and> ToastError (str ''Error'') (str ''An error occurred while saving your answer.'') \<in> set effs)"
proof -
  obtain st1 docs1 effs1 where
    r1: "saveUserAnswer QueryFails 5 (sample_props False) sample_state [] = (st1, docs1, effs1)"
    by (rule prod_cases3)
  obtain st2 docs2 effs2 where
    r2: "saveUserAnswer InsertFails 5 (sample_props False) sample_state [] = (st2, docs2, effs2)"
    by (rule prod_cases3)
  have h: "aiResult sample_state \<noteq> None"
    by (simp add: sample_eval)
  have e: "filter (matches (sample_props False)) [] = []"
    by simp
  have v: "userAnswer sample_state = str ''my answer'' \<and> aiResult sample_state = Some sample_result"
    by (simp add: sample_eval)
  from C9_failed_save_keeps_state [OF r1 h] v
  have "userAnswer st1 = str ''my answer'' \<and> aiResult st1 = Some sample_result \<and> docs1 = []
      \<and> ToastError (str ''Error'') (str ''An error occurred while saving your answer.'') \<in> set effs1"
    by simp
  moreover from C9_failed_save_keeps_state [OF r2 h] e v
  have "userAnswer st2 = str ''my answer'' \<and> aiResult st2 = Some sample_result \<and> docs2 = []
      \<and> ToastError (str ''Error'') (str ''An error occurred while saving your answer.'') \<in> set effs2"
    by simp
  ultimately show ?thesis using h by (simp add: r1 r2)
qed

text \<open>
  C10. A save shows \<^verbatim>\<open>Saved\<close> exactly when an evaluation is held, the store does not
  fail and no earlier answer is found; then the answer is the empty string, the
  evaluation is \<^verbatim>\<open>null\<close>, and the capture is told to stop if it was recording. A save
  shows \<^verbatim>\<open>Already Answered\<close> exactly when an evaluation is held, the query succeeds and
  an earlier answer is found; then the answer and the evaluation are as before.
\<close>

theorem C10_save_outcomes:
  assumes "saveUserAnswer fault now p st docs = (st', docs', effs)"
  shows "(ToastSuccess (str ''Saved'') (str ''Your answer has been saved successfully'') \<in> set effs
            \<longleftrightarrow> aiResult st \<noteq> None \<and> fault = NoFault \<and> filter (matches p) docs = [])
       \<and> (ToastSuccess (str ''Saved'') (str ''Your answer has been saved successfully'') \<in> set effs
            \<longrightarrow> userAnswer st' = [] \<and> aiResult st' = None
                \<and> (isRecording p \<longrightarrow> StopSpeechToText \<in> set effs))
       \<and> (ToastInfo (str ''Already Answered'') (str ''You have already answered this question'') \<in> set effs
            \<longleftrightarrow> aiResult st \<noteq> None \<and> fault \<noteq> QueryFails \<and> filter (matches p) docs \<noteq> [])
       \<and> (ToastInfo (str ''Already Answered'') (str ''You have already answered this question'') \<in> set effs
            \<longrightarrow> userAnswer st' = userAnswer st \<and> aiResult st' = aiResult st)"
proof (cases "aiResult st")
  case None
  with assms show ?thesis
    by (auto simp: saveUserAnswer_def)
next
  case (Some r)
  show ?thesis
  proof (cases "try_save fault now p r (st\<lparr>loading := True\<rparr>) docs")
    case (Inl e)
    with Some assms have effs: "effs = [ConsoleError (str ''Error saving answer:'') (LError e),
                 ToastError (str ''Error'') (str ''An error occurred while saving your answer.'')]"
      by (auto simp: saveUserAnswer_def)
    from Inl have "fault = QueryFails \<or> (fault = InsertFails \<and> filter (matches p) docs = [])"
      by (auto simp: try_save_def split: if_splits)
    with effs Some show ?thesis by auto
  next
    case (Inr res)
    then show ?thesis using Some assms
      by (cases fault) (auto simp: saveUserAnswer_def try_save_def split: if_splits)
  qed
qed

theorem C10_witness:
  "(case saveUserAnswer NoFault 5 (sample_props True) sample_state [] of
      (st', docs', effs) \<Rightarrow>
        ToastSuccess (str ''Saved'') (str ''Your answer has been saved successfully'') \<in> set effs
        \<and> userAnswer st' = [] \<and> aiResult st' = None \<and> StopSpeechToText \<in> set effs)
   \<and> (case saveUserAnswer NoFault 6 (sample_props True) sample_state
              [new_doc 5 (sample_props True) sample_state sample_result] of
      (st', docs', effs) \<Rightarrow>
        ToastInfo (str ''Already Answered'') (str ''You have already answered this question'') \<in> set effs
        \<and> userAnswer st' = str ''my answer'' \<and> aiResult st' = Some sample_result)"
proof -
  obtain st1 docs1 effs1 where
    r1: "saveUserAnswer NoFault 5 (sample_props True) sample_state [] = (st1, docs1, effs1)"
    by (rule prod_cases3)
  obtain st2 docs2 effs2 where
    r2: "saveUserAnswer NoFault 6 (sample_props True) sample_state
           [new_doc 5 (sample_props True) sample_state sample_result] = (st2, docs2, effs2)"
    by (rule prod_cases3)
  have h1: "aiResult sample_state \<noteq> None \<and> NoFault = NoFault
      \<and> filter (matches (sample_props True)) [] = [] \<and> isRecording (sample_props True)"
    by (simp add: sample_eval)
  have h2: "aiResult sample_state \<noteq> None \<and> NoFault \<noteq> QueryFails
      \<and> filter (matches (sample_props True))
          [new_doc 5 (sample_props True) sample_state sample_result] \<noteq> []"
    by (simp add: sample_eval matches_new_doc)
  have v: "userAnswer sample_state = str ''my answer'' \<and> aiResult sample_state = Some sample_result"
    by (simp add: sample_eval)
  from C10_save_outcomes [OF r1] h1
  have "ToastSuccess (str ''Saved'') (str ''Your answer has been saved successfully'') \<in> set effs1
        \<and> userAnswer st1 = [] \<and> aiResult st1 = None \<and> StopSpeechToText \<in> set effs1"
    by blast
  moreover from C10_save_outcomes [OF r2] h2 v
  have "ToastInfo (str ''Already Answered'') (str ''You have already answered this question'') \<in> set effs2
        \<and> userAnswer st2 = str ''my answer'' \<and> aiResult st2 = Some sample_result"
    by metis
  ultimately show ?thesis by (simp add: r1 r2)
qed

end
